theory Spec2Isabelle
  imports Main "HOL-Library.Word"
begin

unbundle bit_operations_syntax

section \<open>Data model of the 5x7 dot matrix firmware (main.c)\<close>

type_synonym u8 = "8 word"

text \<open>Pointers of the ATmega328P are 16 bits wide; \<open>ee_adr++\<close> is addition on them.\<close>

type_synonym addr = "16 word"

text \<open>
  The EEPROM is read-only at run time: \<open>eeprom_read_byte\<close> is a lookup in a fixed
  function from addresses to bytes.
\<close>

type_synonym eeprom = "addr \<Rightarrow> u8"

text \<open>
  The headers \<open>config.h\<close>, \<open>dot_matrix.h\<close> and \<open>animations.h\<close> are not part of the
  sources at hand. Every constant and table that \<open>main.c\<close> takes from them is a field
  of this record, under the name the code uses. \<open>PB_LONGPRESS_DELAY\<close> is the value
  as stored in the 8-bit \<open>pb_timer\<close>; \<open>messages\<close> is the EEPROM address of the first
  message; \<open>ANIMATION_COUNT\<close> is compared with a byte after integer promotion, hence
  a natural number.
\<close>

record config =
  PB_MASK :: u8
  PB_PRESS :: u8
  PB_RELEASE :: u8
  PB_LONGPRESS :: u8
  PB_ACK :: u8
  PB_LONGPRESS_DELAY :: u8
  FORWARD :: u8
  BIDIRECTIONAL :: u8
  dly_conv :: "u8 list"
  spd_conv :: "u8 list"
  ANIMATION_COUNT :: nat
  animation :: "addr list"
  messages :: addr

text \<open>
  The drawing backend (\<open>dot_matrix.c\<close>) is external. A call to it is recorded, with its
  arguments, in a log kept in chronological order.
\<close>

datatype dm_call =
    dmSetScrolling u8 u8 u8
  | dmClearDisplay
  | dmDisplayImage addr
  | dmPrintByte u8
  | dmPrintChar u8
  | dmScroll

text \<open>
  The global variables of \<open>main.c\<close>, the two static variables of the system timer
  interrupt, and the log of backend calls.
\<close>

record state =
  scroll_speed :: u8
  button :: u8
  msg_ptr :: addr
  scroll_timer :: u8
  pb_timer :: u8
  calls :: "dm_call list"

text \<open>
  \<open>pgm_read_byte(&tbl[i])\<close> and \<open>pgm_read_word(&tbl[i])\<close>: a read inside the table yields
  its entry; a read past its end has no defined value and is \<open>None\<close>.
\<close>

definition pgm_read_byte :: "u8 list \<Rightarrow> u8 \<Rightarrow> u8 option" where
  "pgm_read_byte tbl i = (if unat i < length tbl then Some (tbl ! unat i) else None)"

definition pgm_read_word :: "addr list \<Rightarrow> u8 \<Rightarrow> addr option" where
  "pgm_read_word tbl i = (if unat i < length tbl then Some (tbl ! unat i) else None)"

text \<open>
  The state at reset: the initialisers of the declarations, zero for \<open>msg_ptr\<close>, which has
  none, and no backend call made.
\<close>

definition initial_state :: "config \<Rightarrow> state" where
  "initial_state cfg =
     \<lparr>scroll_speed = 8, button = PB_ACK cfg, msg_ptr = 0, scroll_timer = 1, pb_timer = 0,
      calls = []\<rparr>"

section \<open>SetMode\<close>

text \<open>The macro \<open>swap\<close>: the AVR instruction that exchanges the two nibbles of a byte.\<close>

definition swap :: "u8 \<Rightarrow> u8" where
  "swap x = push_bit 4 x OR drop_bit 4 x"

text \<open>The four local variables \<open>inc\<close>, \<open>dir\<close>, \<open>dly\<close>, \<open>spd\<close> as \<open>SetMode\<close> computes them.\<close>

definition SetMode_locals :: "config \<Rightarrow> u8 \<Rightarrow> u8 \<times> u8 \<times> u8 \<times> u8" where
  "SetMode_locals cfg mode =
     (let inc = (if mode AND 0x08 \<noteq> 0 then 5 else 1);
          dir = (if mode AND 0x80 \<noteq> 0 then BIDIRECTIONAL cfg else FORWARD cfg);
          spd = mode AND 0x07;
          dly = swap mode AND 0x07
      in (inc, dir, dly, spd))"

definition SetMode :: "config \<Rightarrow> u8 \<Rightarrow> state \<Rightarrow> state option" where
  "SetMode cfg mode st =
     (case SetMode_locals cfg mode of (inc, dir, dly, spd) \<Rightarrow>
        (case pgm_read_byte (dly_conv cfg) dly of
           None \<Rightarrow> None
         | Some d \<Rightarrow>
            (case pgm_read_byte (spd_conv cfg) spd of
               None \<Rightarrow> None
             | Some s \<Rightarrow>
                 Some (st\<lparr>calls := calls st @ [dmSetScrolling inc dir d],
                         scroll_speed := s\<rparr>))))"

section \<open>DisplayMessage\<close>

text \<open>
  The inner loop of direct mode. \<open>ch\<close> is the byte read last and \<open>ee_adr\<close> the address
  after it. The loop ends at the first byte \<open>0xFF\<close>; without one it never returns, which
  is the value \<open>None\<close>.
\<close>

partial_function (option) DisplayMessage_direct ::
  "eeprom \<Rightarrow> u8 \<Rightarrow> addr \<Rightarrow> dm_call list \<Rightarrow> (addr \<times> dm_call list) option" where
  "DisplayMessage_direct eep ch ee_adr out =
     (if ch \<noteq> 0xFF
      then DisplayMessage_direct eep (eep ee_adr) (ee_adr + 1) (out @ [dmPrintByte ch])
      else Some (ee_adr, out))"

declare DisplayMessage_direct.simps [code]

text \<open>
  The three branches of the body of the outer loop (animation, direct mode, character),
  up to but excluding the read of the next byte. \<open>'~' = 0x7E\<close>, \<open>'^' = 0x5E\<close>,
  \<open>'A' = 0x41\<close>; \<open>ch -= 'A'\<close> and \<open>ch += 63\<close> are arithmetic on bytes.
\<close>

definition DisplayMessage_unit ::
  "config \<Rightarrow> eeprom \<Rightarrow> u8 \<Rightarrow> addr \<Rightarrow> dm_call list \<Rightarrow> (addr \<times> dm_call list) option" where
  "DisplayMessage_unit cfg eep ch ee_adr out =
     (if ch = 0x7E then
        (let ch1 = eep ee_adr; ee1 = ee_adr + 1 in
         if ch1 \<noteq> 0x7E then
           (let ch2 = ch1 - 0x41 in
            if unat ch2 < ANIMATION_COUNT cfg then
              (case pgm_read_word (animation cfg) ch2 of
                 None \<Rightarrow> None
               | Some img \<Rightarrow> Some (ee1, out @ [dmDisplayImage img]))
            else Some (ee1, out))
         else Some (ee1, out))
      else if ch = 0xFF then
        DisplayMessage_direct eep (eep ee_adr) (ee_adr + 1) out
      else
        (if ch = 0x5E then
           (let ch1 = eep ee_adr; ee1 = ee_adr + 1;
                ch2 = (if ch1 \<noteq> 0x5E then ch1 + 63 else ch1)
            in Some (ee1, out @ [dmPrintChar ch2]))
         else Some (ee_adr, out @ [dmPrintChar ch])))"

text \<open>The outer loop \<open>while (ch)\<close>, with the narrow space printed before the next unit.\<close>

partial_function (option) DisplayMessage_loop ::
  "config \<Rightarrow> eeprom \<Rightarrow> u8 \<Rightarrow> addr \<Rightarrow> dm_call list \<Rightarrow> (addr \<times> dm_call list) option" where
  "DisplayMessage_loop cfg eep ch ee_adr out =
     (if ch \<noteq> 0 then
        Option.bind (DisplayMessage_unit cfg eep ch ee_adr out)
          (\<lambda>r. let ch1 = eep (fst r); ee2 = fst r + 1;
                   out2 = (if ch1 \<noteq> 0 then snd r @ [dmPrintByte 0] else snd r)
               in DisplayMessage_loop cfg eep ch1 ee2 out2)
      else Some (ee_adr, out))"

declare DisplayMessage_loop.simps [code]

definition DisplayMessage :: "config \<Rightarrow> eeprom \<Rightarrow> addr \<Rightarrow> state \<Rightarrow> (addr \<times> state) option" where
  "DisplayMessage cfg eep ee_adr st =
     (case SetMode cfg (eep ee_adr) st of
        None \<Rightarrow> None
      | Some st1 \<Rightarrow>
         (let ee1 = ee_adr + 1;
              out1 = calls st1 @ [dmClearDisplay];
              ch = eep ee1;
              ee2 = ee1 + 1
          in case DisplayMessage_loop cfg eep ch ee2 out1 of
               None \<Rightarrow> None
             | Some (ee3, out3) \<Rightarrow>
                 Some (if eep ee3 \<noteq> 0 then ee3 else messages cfg, st1\<lparr>calls := out3\<rparr>)))"

section \<open>GoToSleep and the main loop\<close>

text \<open>
  \<open>GoToSleep\<close> as a function from the state at the call to the state at its return, that
  is after the wake-up interrupt has ended \<open>sleep_mode()\<close>. The delays and the pin change
  registers leave the variables of the state untouched.
\<close>

definition GoToSleep :: "config \<Rightarrow> eeprom \<Rightarrow> state \<Rightarrow> state option" where
  "GoToSleep cfg eep st =
     (let st1 = st\<lparr>calls := calls st @ [dmClearDisplay]\<rparr>;
          st2 = st1\<lparr>calls := calls st1 @ [dmPrintChar 131]\<rparr>
      in case DisplayMessage cfg eep (messages cfg) st2 of
           None \<Rightarrow> None
         | Some (p, st3) \<Rightarrow> Some (st3\<lparr>msg_ptr := p\<rparr>))"

text \<open>One pass through the body of \<open>while(1)\<close> in \<open>main\<close>.\<close>

definition main_loop_body :: "config \<Rightarrow> eeprom \<Rightarrow> state \<Rightarrow> state option" where
  "main_loop_body cfg eep st =
     (case (if button st = PB_RELEASE cfg then
              (case DisplayMessage cfg eep (msg_ptr st) st of
                 None \<Rightarrow> None
               | Some (p, st1) \<Rightarrow>
                   Some (st1\<lparr>msg_ptr := p, button := button st1 OR PB_ACK cfg\<rparr>))
            else Some st) of
        None \<Rightarrow> None
      | Some st2 \<Rightarrow>
          if button st2 = PB_LONGPRESS cfg then
            (let st3 = st2\<lparr>calls := calls st2 @ [dmClearDisplay, dmPrintChar 130]\<rparr>
             in case GoToSleep cfg eep st3 of
                  None \<Rightarrow> None
                | Some st4 \<Rightarrow> Some (st4\<lparr>button := button st4 OR PB_ACK cfg\<rparr>))
          else Some st2)"

section \<open>The system timer interrupt\<close>

text \<open>
  \<open>ISR(TIMER0_COMPB_vect)\<close>. The argument \<open>pin\<close> is the value read from the input register
  \<open>PB_PIN\<close> in this invocation. The compare register \<open>OCR0B\<close> belongs to the timer hardware
  and is not part of the state.
\<close>

definition ISR_TIMER0_COMPB :: "config \<Rightarrow> u8 \<Rightarrow> state \<Rightarrow> state" where
  "ISR_TIMER0_COMPB cfg pin st =
     (let st1 = (if scroll_timer st \<noteq> 0
                 then st\<lparr>scroll_timer := scroll_timer st - 1\<rparr>
                 else st\<lparr>scroll_timer := scroll_speed st, calls := calls st @ [dmScroll]\<rparr>);
          temp = NOT pin;
          temp = temp AND PB_MASK cfg
      in if temp = 0 then
           (if button st1 AND PB_PRESS cfg \<noteq> 0
            then st1\<lparr>button := button st1 AND NOT (PB_PRESS cfg OR PB_ACK cfg)\<rparr>
            else st1)
         else
           (if button st1 AND PB_PRESS cfg = 0
            then st1\<lparr>button := PB_PRESS cfg, pb_timer := PB_LONGPRESS_DELAY cfg\<rparr>
            else if button st1 = PB_PRESS cfg then
              (if pb_timer st1 = 0
               then st1\<lparr>button := PB_LONGPRESS cfg\<rparr>
               else st1\<lparr>pb_timer := pb_timer st1 - 1\<rparr>)
            else st1))"

text \<open>The interrupt run once per sample of a sequence of samples, first sample first.\<close>

fun ticks :: "config \<Rightarrow> u8 list \<Rightarrow> state \<Rightarrow> state" where
  "ticks cfg [] st = st"
| "ticks cfg (pin # pins) st = ticks cfg pins (ISR_TIMER0_COMPB cfg pin st)"

text \<open>
  The number of invocations, over a sequence of samples, in which \<open>button\<close> changes to the
  value \<open>ev\<close>: the number of times the event \<open>ev\<close> is issued.
\<close>

fun issued :: "config \<Rightarrow> u8 \<Rightarrow> u8 list \<Rightarrow> state \<Rightarrow> nat" where
  "issued cfg ev [] st = 0"
| "issued cfg ev (pin # pins) st =
     (let st' = ISR_TIMER0_COMPB cfg pin st
      in (if button st' = ev \<and> button st \<noteq> ev then 1 else 0) + issued cfg ev pins st')"

text \<open>For each invocation of a sequence, whether it called \<open>dmScroll\<close>.\<close>

fun scroll_steps :: "config \<Rightarrow> u8 list \<Rightarrow> state \<Rightarrow> bool list" where
  "scroll_steps cfg [] st = []"
| "scroll_steps cfg (pin # pins) st =
     (let st' = ISR_TIMER0_COMPB cfg pin st
      in (calls st' = calls st @ [dmScroll]) # scroll_steps cfg pins st')"

section \<open>The formats of the specification\<close>

subsection \<open>Button\<close>

text \<open>A sample counts as pressed when the interrupt takes its branch for a pressed button.\<close>

definition pressed :: "config \<Rightarrow> u8 \<Rightarrow> bool" where
  "pressed cfg pin \<longleftrightarrow> NOT pin AND PB_MASK cfg \<noteq> 0"

text \<open>
  What the state machine needs of the button constants: the press bits are disjoint from
  the acknowledge bit, the release event is the value without any bit, and a long press
  keeps a press bit and carries a bit of its own.
\<close>

definition pb_consts_ok :: "config \<Rightarrow> bool" where
  "pb_consts_ok cfg \<longleftrightarrow>
     PB_PRESS cfg \<noteq> 0 \<and>
     PB_ACK cfg AND PB_PRESS cfg = 0 \<and>
     PB_RELEASE cfg = 0 \<and>
     PB_LONGPRESS cfg AND PB_PRESS cfg \<noteq> 0 \<and>
     PB_LONGPRESS cfg \<noteq> PB_PRESS cfg \<and>
     PB_LONGPRESS cfg AND NOT (PB_PRESS cfg OR PB_ACK cfg) \<noteq> 0"

subsection \<open>Mode byte\<close>

text \<open>
  The mode byte as the specification lays it out: bit 7 the direction, bits 6 to 4 the
  delay index, bit 3 the increment selector (set for 5, clear for 1), bits 2 to 0 the speed
  index. \<open>encode_mode\<close> packs the four decoded values back into a byte.
\<close>

definition encode_mode :: "config \<Rightarrow> u8 \<times> u8 \<times> u8 \<times> u8 \<Rightarrow> u8" where
  "encode_mode cfg f =
     (case f of (inc, dir, dly, spd) \<Rightarrow>
        (if dir = BIDIRECTIONAL cfg then 0x80 else 0) OR push_bit 4 dly OR
        (if inc = 5 then 0x08 else 0) OR spd)"

text \<open>The lookup tables have eight entries and the animation table covers its count.\<close>

definition tables_ok :: "config \<Rightarrow> bool" where
  "tables_ok cfg \<longleftrightarrow>
     length (dly_conv cfg) = 8 \<and> length (spd_conv cfg) = 8 \<and>
     ANIMATION_COUNT cfg \<le> length (animation cfg)"

subsection \<open>Messages\<close>

text \<open>
  The content of a message is a sequence of units: a plain character, the escape \<open>'~'\<close>
  with its argument byte, the escape \<open>'^'\<close> with its argument byte, or a block of raw
  columns between two bytes \<open>0xFF\<close>. The argument of an escape is the byte that follows
  it, whatever its value.
\<close>

datatype msg_unit = Glyph u8 | Anim u8 | Shifted u8 | Raw "u8 list"

fun unit_bytes :: "msg_unit \<Rightarrow> u8 list" where
  "unit_bytes (Glyph b) = [b]"
| "unit_bytes (Anim x) = [0x7E, x]"
| "unit_bytes (Shifted x) = [0x5E, x]"
| "unit_bytes (Raw bs) = 0xFF # bs @ [0xFF]"

fun wf_unit :: "msg_unit \<Rightarrow> bool" where
  "wf_unit (Glyph b) = (b \<noteq> 0 \<and> b \<noteq> 0x7E \<and> b \<noteq> 0x5E \<and> b \<noteq> 0xFF)"
| "wf_unit (Anim x) = True"
| "wf_unit (Shifted x) = True"
| "wf_unit (Raw bs) = (0xFF \<notin> set bs)"

text \<open>What the specification has each unit draw.\<close>

fun unit_draws :: "config \<Rightarrow> msg_unit \<Rightarrow> dm_call list" where
  "unit_draws cfg (Glyph b) = [dmPrintChar b]"
| "unit_draws cfg (Anim x) =
     (if x = 0x7E \<or> ANIMATION_COUNT cfg \<le> unat (x - 0x41) then []
      else [dmDisplayImage (animation cfg ! unat (x - 0x41))])"
| "unit_draws cfg (Shifted x) = [dmPrintChar (if x = 0x5E then 0x5E else x + 63)]"
| "unit_draws cfg (Raw bs) = map dmPrintByte bs"

text \<open>The draws of consecutive units, one narrow space between each two of them.\<close>

fun spaced :: "dm_call list list \<Rightarrow> dm_call list" where
  "spaced [] = []"
| "spaced [d] = d"
| "spaced (d # e # ds) = d @ dmPrintByte 0 # spaced (e # ds)"

text \<open>Plain characters drawn one after the other, a narrow space between each two.\<close>

fun plain_draws :: "u8 list \<Rightarrow> dm_call list" where
  "plain_draws [] = []"
| "plain_draws [b] = [dmPrintChar b]"
| "plain_draws (b # b' # bs) = dmPrintChar b # dmPrintByte 0 # plain_draws (b' # bs)"

text \<open>A message: mode byte, the bytes of its units, terminating zero.\<close>

definition message_bytes :: "u8 \<Rightarrow> msg_unit list \<Rightarrow> u8 list" where
  "message_bytes mode us = mode # concat (map unit_bytes us) @ [0]"

text \<open>The EEPROM holds the bytes \<open>bs\<close> from address \<open>a\<close> on.\<close>

fun stored :: "eeprom \<Rightarrow> addr \<Rightarrow> u8 list \<Rightarrow> bool" where
  "stored eep a [] = True"
| "stored eep a (b # bs) = (eep a = b \<and> stored eep (a + 1) bs)"

text \<open>What \<open>SetMode\<close> and \<open>dmClearDisplay\<close> log at the start of a message.\<close>

definition mode_calls :: "config \<Rightarrow> u8 \<Rightarrow> dm_call list" where
  "mode_calls cfg mode =
     [dmSetScrolling (if bit mode 3 then 5 else 1)
        (if bit mode 7 then BIDIRECTIONAL cfg else FORWARD cfg)
        (dly_conv cfg ! ((unat mode div 16) mod 8)),
      dmClearDisplay]"

subsection \<open>Sample inputs\<close>

text \<open>
  An EEPROM whose first cells hold the given bytes; every other cell is erased (\<open>0xFF\<close>).
\<close>

definition eeprom_image :: "u8 list \<Rightarrow> eeprom" where
  "eeprom_image bs = (\<lambda>a. if unat a < length bs then bs ! unat a else 0xFF)"

text \<open>
  One choice of the constants of the absent headers, at which the theorems below are
  instantiated: the press bit is bit 0, a long press keeps it and adds bit 1, the
  acknowledge bit is bit 7, and \<open>messages\<close> is the start of the EEPROM.
\<close>

definition sample_config :: config where
  "sample_config =
     \<lparr>PB_MASK = 0x01, PB_PRESS = 0x01, PB_RELEASE = 0x00, PB_LONGPRESS = 0x03,
      PB_ACK = 0x80, PB_LONGPRESS_DELAY = 2, FORWARD = 0, BIDIRECTIONAL = 1,
      dly_conv = [0, 8, 16, 24, 32, 48, 64, 96],
      spd_conv = [40, 30, 20, 15, 10, 6, 3, 1],
      ANIMATION_COUNT = 2, animation = [0x0100, 0x0200], messages = 0\<rparr>"

section \<open>Properties of SetMode\<close>

lemma seven_mask: "(7::u8) = mask 3"
  by (simp add: mask_eq_exp_minus_1)

lemma and_8_bit: "((mode::u8) AND 0x08 \<noteq> 0) = bit mode 3"
  using and_exp_eq_0_iff_not_bit[of mode 3] by simp

lemma and_128_bit: "((mode::u8) AND 0x80 \<noteq> 0) = bit mode 7"
  using and_exp_eq_0_iff_not_bit[of mode 7] by simp

lemma swap_and_7: "swap mode AND 7 = take_bit 3 (drop_bit 4 mode)"
proof -
  have "swap mode AND mask 3 = drop_bit 4 mode AND mask 3"
    unfolding swap_def by (rule bit_eqI) (auto simp: bit_simps)
  then show ?thesis
    unfolding seven_mask take_bit_eq_mask .
qed

lemma and_7_take_bit: "(mode::u8) AND 7 = take_bit 3 mode"
  by (simp add: seven_mask take_bit_eq_mask)

lemma unat_and_7: "unat ((x::u8) AND 7) = unat x mod 8"
  by (simp add: and_7_take_bit take_bit_eq_mod unat_mod)

lemma unat_swap_and_7: "unat (swap mode AND 7) = (unat mode div 16) mod 8"
  by (simp add: swap_and_7 take_bit_eq_mod drop_bit_eq_div unat_mod unat_div)

lemma SetMode_locals_eq:
  "SetMode_locals cfg mode =
     (if bit mode 3 then 5 else 1,
      if bit mode 7 then BIDIRECTIONAL cfg else FORWARD cfg,
      take_bit 3 (drop_bit 4 mode),
      take_bit 3 mode)"
  unfolding SetMode_locals_def Let_def and_8_bit and_128_bit swap_and_7
  by (simp add: and_7_take_bit)

lemma bits_reassemble:
  "(if bit (mode::u8) 7 then 0x80 else 0) OR push_bit 4 (take_bit 3 (drop_bit 4 mode)) OR
   (if bit mode 3 then 0x08 else 0) OR take_bit 3 mode = mode"
proof -
  have e: "(0x80::u8) = push_bit 7 1" "(8::u8) = push_bit 3 1"
    by simp_all
  have field: "n < 3 \<or> n = 3 \<or> (4 \<le> n \<and> n < 7) \<or> n = 7" if "n < 8" for n :: nat
    using that by arith
  show ?thesis
    unfolding e
  proof (rule bit_eqI)
    fix n
    assume "possible_bit TYPE(u8) n"
    then have "n < 8" by (simp add: possible_bit_word)
    from field[OF this]
    show "bit ((if bit mode 7 then push_bit 7 1 else 0) OR
               push_bit 4 (take_bit 3 (drop_bit 4 mode)) OR
               (if bit mode 3 then push_bit 3 1 else 0) OR take_bit 3 mode) n = bit mode n"
      by (auto simp: bit_simps simp del: push_bit_of_1)
  qed
qed

lemma encode_SetMode_locals:
  "BIDIRECTIONAL cfg \<noteq> FORWARD cfg \<Longrightarrow> encode_mode cfg (SetMode_locals cfg mode) = mode"
  using bits_reassemble[of mode]
  by (cases "bit mode 7"; cases "bit mode 3"; simp add: SetMode_locals_eq encode_mode_def)

lemma SetMode_Some:
  assumes "length (dly_conv cfg) = 8" and "length (spd_conv cfg) = 8"
  shows "SetMode cfg mode st =
           Some (st\<lparr>calls := calls st @
                     [dmSetScrolling (if bit mode 3 then 5 else 1)
                        (if bit mode 7 then BIDIRECTIONAL cfg else FORWARD cfg)
                        (dly_conv cfg ! ((unat mode div 16) mod 8))],
                   scroll_speed := spd_conv cfg ! (unat mode mod 8)\<rparr>)"
  using assms unat_and_7[of mode] unat_swap_and_7[of mode]
  by (simp add: SetMode_def SetMode_locals_def pgm_read_byte_def and_8_bit and_128_bit)

text \<open>
  C3. The four values that \<open>SetMode\<close> decodes depend on the mode byte only through its bit
  fields: the increment is 5 when bit 3 is set and 1 otherwise, the direction is
  \<open>BIDIRECTIONAL\<close> when bit 7 is set and \<open>FORWARD\<close> otherwise, the delay index is the number
  in bits 6 to 4, the speed index the number in bits 2 to 0. Packing the four values into
  a byte gives the mode byte back, for every mode byte, provided the two direction
  constants differ.
\<close>

theorem SetMode_fields_roundtrip:
  assumes "BIDIRECTIONAL cfg \<noteq> FORWARD cfg"
      and "SetMode_locals cfg mode = (inc, dir, dly, spd)"
  shows "inc = (if bit mode 3 then 5 else 1) \<and>
         dir = (if bit mode 7 then BIDIRECTIONAL cfg else FORWARD cfg) \<and>
         unat dly = (unat mode div 16) mod 8 \<and>
         unat spd = unat mode mod 8 \<and>
         encode_mode cfg (inc, dir, dly, spd) = mode"
proof -
  have l: "SetMode_locals cfg mode =
     (if mode AND 0x08 \<noteq> 0 then 5 else 1,
      if mode AND 0x80 \<noteq> 0 then BIDIRECTIONAL cfg else FORWARD cfg,
      swap mode AND 7, mode AND 7)"
    by (simp add: SetMode_locals_def)
  from assms(2) l have "inc = (if bit mode 3 then 5 else 1)"
    and "dir = (if bit mode 7 then BIDIRECTIONAL cfg else FORWARD cfg)"
    and "dly = swap mode AND 7" and "spd = mode AND 7"
    by (simp_all add: and_8_bit and_128_bit)
  moreover have "encode_mode cfg (inc, dir, dly, spd) = mode"
    using encode_SetMode_locals[OF assms(1), of mode] assms(2) by simp
  ultimately show ?thesis
    using unat_and_7[of mode] unat_swap_and_7[of mode] by simp
qed

theorem SetMode_fields_roundtrip_witness:
  "BIDIRECTIONAL sample_config \<noteq> FORWARD sample_config \<and>
   SetMode_locals sample_config 0xAD = (5, 1, 2, 5) \<and>
   encode_mode sample_config (5, 1, 2, 5) = 0xAD"
proof -
  have h: "BIDIRECTIONAL sample_config \<noteq> FORWARD sample_config"
    "SetMode_locals sample_config 0xAD = (5, 1, 2, 5)"
    by (simp_all add: sample_config_def SetMode_locals_def swap_def)
  from SetMode_fields_roundtrip[OF h] h show ?thesis
    by blast
qed

text \<open>
  C10. For every mode byte the delay index and the speed index of \<open>SetMode\<close> are below 8,
  so with tables of eight entries both table reads are inside their table and \<open>SetMode\<close>
  returns.
\<close>

theorem SetMode_reads_in_bounds:
  assumes "length (dly_conv cfg) = 8" and "length (spd_conv cfg) = 8"
      and "SetMode_locals cfg mode = (inc, dir, dly, spd)"
  shows "unat dly < 8 \<and> unat spd < 8 \<and>
         pgm_read_byte (dly_conv cfg) dly = Some (dly_conv cfg ! unat dly) \<and>
         pgm_read_byte (spd_conv cfg) spd = Some (spd_conv cfg ! unat spd) \<and>
         (\<exists>st'. SetMode cfg mode st = Some st')"
proof -
  from assms(3) have d: "dly = swap mode AND 7" and s: "spd = mode AND 7"
    by (simp_all add: SetMode_locals_def)
  have "unat dly < 8" "unat spd < 8"
    using unat_and_7[of mode] unat_swap_and_7[of mode] by (simp_all add: d s)
  then show ?thesis
    using assms(1,2) by (simp add: pgm_read_byte_def SetMode_Some)
qed

theorem SetMode_reads_in_bounds_witness:
  "length (dly_conv sample_config) = 8 \<and> length (spd_conv sample_config) = 8 \<and>
   SetMode_locals sample_config 0xFF = (5, 1, 7, 7) \<and>
   pgm_read_byte (dly_conv sample_config) 7 = Some 96 \<and>
   pgm_read_byte (spd_conv sample_config) 7 = Some 1"
proof -
  have h: "length (dly_conv sample_config) = 8" "length (spd_conv sample_config) = 8"
    "SetMode_locals sample_config 0xFF = (5, 1, 7, 7)"
    by (simp_all add: sample_config_def SetMode_locals_def swap_def)
  have v: "dly_conv sample_config ! unat (7::u8) = 96" "spd_conv sample_config ! unat (7::u8) = 1"
    by (simp_all add: sample_config_def)
  from SetMode_reads_in_bounds[OF h, of "initial_state sample_config"] h v show ?thesis
    by simp
qed

section \<open>Properties of DisplayMessage\<close>

lemma stored_append:
  "stored eep a (xs @ ys) = (stored eep a xs \<and> stored eep (a + of_nat (length xs)) ys)"
  by (induction xs arbitrary: a) (simp_all add: add.assoc)

lemma direct_run:
  "stored eep a (bs @ [0xFF]) \<Longrightarrow> 0xFF \<notin> set bs \<Longrightarrow>
   DisplayMessage_direct eep (eep a) (a + 1) out =
     Some (a + of_nat (length bs) + 1, out @ map dmPrintByte bs)"
proof (induction bs arbitrary: a out)
  case Nil
  then show ?case
    by (simp add: DisplayMessage_direct.simps)
next
  case (Cons b bs)
  then have "eep a = b" "b \<noteq> 0xFF" "stored eep (a + 1) (bs @ [0xFF])" "0xFF \<notin> set bs"
    by auto
  with Cons.IH[of "a + 1" "out @ [dmPrintByte b]"] show ?case
    by (subst DisplayMessage_direct.simps) (simp add: add.assoc add.commute)
qed

lemma unit_direct:
  "DisplayMessage_unit cfg eep 0xFF ee out = DisplayMessage_direct eep (eep ee) (ee + 1) out"
  by (simp add: DisplayMessage_unit_def)

lemma unit_run:
  assumes "wf_unit u" and "stored eep a (unit_bytes u)"
      and "ANIMATION_COUNT cfg \<le> length (animation cfg)"
  shows "DisplayMessage_unit cfg eep (eep a) (a + 1) out =
           Some (a + of_nat (length (unit_bytes u)), out @ unit_draws cfg u)"
proof (cases u)
  case (Glyph b)
  with assms show ?thesis
    by (simp add: DisplayMessage_unit_def)
next
  case (Anim x)
  with assms show ?thesis
    by (auto simp: DisplayMessage_unit_def pgm_read_word_def Let_def)
next
  case (Shifted x)
  with assms show ?thesis
    by (auto simp: DisplayMessage_unit_def Let_def)
next
  case (Raw bs)
  with assms have s: "eep a = 0xFF" "stored eep (a + 1) (bs @ [0xFF])" "0xFF \<notin> set bs"
    by auto
  have e: "a + 1 + of_nat (length bs) + 1 = a + of_nat (length (unit_bytes (Raw bs)))"
    by simp
  show ?thesis
    using direct_run[OF s(2,3), of out]
    unfolding s(1) unit_direct e Raw by simp
qed

lemma unit_bytes_head: "wf_unit u \<Longrightarrow> \<exists>b bs. unit_bytes u = b # bs \<and> b \<noteq> 0"
  by (cases u) auto


lemma spaced_Cons:
  "spaced (d # ds) = d @ (if ds = [] then [] else dmPrintByte 0 # spaced ds)"
  by (cases ds) simp_all

lemma stored_units_head:
  assumes "\<forall>u\<in>set us. wf_unit u"
      and "stored eep a (concat (map unit_bytes us) @ [0])"
  shows "(eep a \<noteq> 0) = (us \<noteq> [])"
proof (cases us)
  case Nil
  with assms show ?thesis by simp
next
  case (Cons u us')
  with assms(1) unit_bytes_head[of u] obtain b bs where "unit_bytes u = b # bs" "b \<noteq> 0"
    by auto
  with assms(2) Cons show ?thesis by simp
qed

lemma loop_run:
  assumes "\<forall>u\<in>set us. wf_unit u"
      and "stored eep a (concat (map unit_bytes us) @ [0])"
      and "ANIMATION_COUNT cfg \<le> length (animation cfg)"
  shows "DisplayMessage_loop cfg eep (eep a) (a + 1) out =
           Some (a + of_nat (length (concat (map unit_bytes us))) + 1,
                 out @ spaced (map (unit_draws cfg) us))"
  using assms(1,2)
proof (induction us arbitrary: a out)
  case Nil
  then show ?case
    by (simp add: DisplayMessage_loop.simps)
next
  case (Cons u us)
  let ?n = "length (unit_bytes u)"
  let ?a' = "a + of_nat ?n"
  let ?out' = "out @ unit_draws cfg u @ (if us = [] then [] else [dmPrintByte 0])"
  from Cons.prems have wf: "wf_unit u" "\<forall>v\<in>set us. wf_unit v"
    by simp_all
  from Cons.prems(2) have st: "stored eep a (unit_bytes u)"
    "stored eep ?a' (concat (map unit_bytes us) @ [0])"
    by (simp_all add: stored_append)
  from Cons.prems have nz: "eep a \<noteq> 0"
    using stored_units_head[of "u # us" eep a] by simp
  have nx: "(eep ?a' \<noteq> 0) = (us \<noteq> [])"
    by (rule stored_units_head[OF wf(2) st(2)])
  have ih: "DisplayMessage_loop cfg eep (eep ?a') (?a' + 1) ?out' =
              Some (?a' + of_nat (length (concat (map unit_bytes us))) + 1,
                    ?out' @ spaced (map (unit_draws cfg) us))"
    by (rule Cons.IH[OF wf(2) st(2)])
  have "DisplayMessage_loop cfg eep (eep a) (a + 1) out =
          DisplayMessage_loop cfg eep (eep ?a') (?a' + 1) ?out'"
    using nz nx unit_run[OF wf(1) st(1) assms(3), of out]
    by (subst DisplayMessage_loop.simps) (auto simp: Let_def)
  also note ih
  finally show ?case
    by (simp add: spaced_Cons add.assoc)
qed

lemma SetMode_tables:
  assumes "tables_ok cfg"
  shows "SetMode cfg mode st =
           Some (st\<lparr>calls := calls st @
                     [dmSetScrolling (if bit mode 3 then 5 else 1)
                        (if bit mode 7 then BIDIRECTIONAL cfg else FORWARD cfg)
                        (dly_conv cfg ! ((unat mode div 16) mod 8))],
                   scroll_speed := spd_conv cfg ! (unat mode mod 8)\<rparr>)"
  using assms by (simp add: tables_ok_def SetMode_Some)

lemma DisplayMessage_run:
  assumes "tables_ok cfg"
      and "\<forall>u\<in>set us. wf_unit u"
      and "stored eep c (message_bytes mode us)"
  shows "DisplayMessage cfg eep c st =
           Some (if eep (c + of_nat (length (message_bytes mode us))) \<noteq> 0
                 then c + of_nat (length (message_bytes mode us)) else messages cfg,
                 st\<lparr>calls := calls st @ mode_calls cfg mode @ spaced (map (unit_draws cfg) us),
                    scroll_speed := spd_conv cfg ! (unat mode mod 8)\<rparr>)"
proof -
  from assms(3) have m: "eep c = mode"
    and s: "stored eep (c + 1) (concat (map unit_bytes us) @ [0])"
    by (simp_all add: message_bytes_def)
  from assms(1) have an: "ANIMATION_COUNT cfg \<le> length (animation cfg)"
    by (simp add: tables_ok_def)
  have e: "c + 1 + of_nat (length (concat (map unit_bytes us))) + 1 =
           c + of_nat (length (message_bytes mode us))"
    by (simp add: message_bytes_def)
  show ?thesis
    unfolding DisplayMessage_def m SetMode_tables[OF assms(1)] Let_def
    using loop_run[OF assms(2) s an] e
    by (simp add: mode_calls_def)
qed

lemma spaced_length:
  "length (spaced ds) = length (concat ds) + (length ds - 1)"
  by (induction ds rule: spaced.induct) simp_all

lemma spaced_plain: "spaced (map (unit_draws cfg \<circ> Glyph) bs) = plain_draws bs"
  by (induction bs rule: plain_draws.induct) simp_all

lemma stored_terminator:
  "stored eep c (message_bytes mode us) \<Longrightarrow>
   eep (c + 1 + of_nat (length (concat (map unit_bytes us)))) = 0"
  by (simp add: message_bytes_def stored_append)

lemma message_end:
  "(c::addr) + of_nat (length (message_bytes mode us)) =
   c + 1 + of_nat (length (concat (map unit_bytes us))) + 1"
  by (simp add: message_bytes_def)

lemma plain_draws_chars: "[d \<leftarrow> plain_draws bs. d \<noteq> dmPrintByte 0] = map dmPrintChar bs"
  by (induction bs rule: plain_draws.induct) simp_all

lemma plain_draws_spaces: "count_list (plain_draws bs) (dmPrintByte 0) = length bs - 1"
  by (induction bs rule: plain_draws.induct) simp_all

lemma GoToSleep_run:
  assumes "tables_ok cfg"
      and "\<forall>u\<in>set us. wf_unit u"
      and "stored eep (messages cfg) (message_bytes mode us)"
  shows "GoToSleep cfg eep st =
           Some (st\<lparr>calls := calls st @ [dmClearDisplay, dmPrintChar 131] @ mode_calls cfg mode @
                              spaced (map (unit_draws cfg) us),
                    scroll_speed := spd_conv cfg ! (unat mode mod 8),
                    msg_ptr := (if eep (messages cfg + of_nat (length (message_bytes mode us))) \<noteq> 0
                                then messages cfg + of_nat (length (message_bytes mode us))
                                else messages cfg)\<rparr>)"
  unfolding GoToSleep_def Let_def DisplayMessage_run[OF assms]
  by simp

text \<open>
  Conversely, \<open>DisplayMessage\<close> returns only when the EEPROM holds a message at the cursor:
  the sequences of units are all the contents on which the decoder reaches a terminator.
\<close>

lemma direct_only:
  assumes "DisplayMessage_direct eep ch ee out = Some y"
  shows "\<forall>a. eep a = ch \<and> ee = a + 1 \<longrightarrow>
           (\<exists>bs. 0xFF \<notin> set bs \<and> stored eep a (bs @ [0xFF]) \<and>
                 fst y = a + of_nat (length bs) + 1)"
proof (rule DisplayMessage_direct.raw_induct[where P = "\<lambda>eep ch ee out y.
          \<forall>a. eep a = ch \<and> ee = a + 1 \<longrightarrow>
              (\<exists>bs. 0xFF \<notin> set bs \<and> stored eep a (bs @ [0xFF]) \<and>
                    fst y = a + of_nat (length bs) + 1)", OF _ assms])
  fix direct :: "eeprom \<Rightarrow> u8 \<Rightarrow> addr \<Rightarrow> dm_call list \<Rightarrow> (addr \<times> dm_call list) option"
  fix eep ch ee out y
  assume ih: "\<And>eep ch ee out y. direct eep ch ee out = Some y \<Longrightarrow>
          \<forall>a. eep a = ch \<and> ee = a + 1 \<longrightarrow>
              (\<exists>bs. 0xFF \<notin> set bs \<and> stored eep a (bs @ [0xFF]) \<and>
                    fst y = a + of_nat (length bs) + 1)"
    and eq: "(if ch \<noteq> 0xFF
              then direct eep (eep ee) (ee + 1) (out @ [dmPrintByte ch])
              else Some (ee, out)) = Some y"
  show "\<forall>a. eep a = ch \<and> ee = a + 1 \<longrightarrow>
              (\<exists>bs. 0xFF \<notin> set bs \<and> stored eep a (bs @ [0xFF]) \<and>
                    fst y = a + of_nat (length bs) + 1)"
  proof (intro allI impI)
    fix a
    assume a: "eep a = ch \<and> ee = a + 1"
    show "\<exists>bs. 0xFF \<notin> set bs \<and> stored eep a (bs @ [0xFF]) \<and>
               fst y = a + of_nat (length bs) + 1"
    proof (cases "ch = 0xFF")
      case True
      with a eq have "0xFF \<notin> set ([]::u8 list) \<and> stored eep a ([] @ [0xFF]) \<and>
          fst y = a + of_nat (length ([]::u8 list)) + 1"
        by auto
      then show ?thesis by blast
    next
      case False
      with eq have "direct eep (eep ee) (ee + 1) (out @ [dmPrintByte ch]) = Some y"
        by simp
      from ih[OF this] obtain bs where "0xFF \<notin> set bs" "stored eep ee (bs @ [0xFF])"
        "fst y = ee + of_nat (length bs) + 1"
        by blast
      with a False have "0xFF \<notin> set (ch # bs) \<and> stored eep a ((ch # bs) @ [0xFF]) \<and>
          fst y = a + of_nat (length (ch # bs)) + 1"
        by auto
      then show ?thesis by blast
    qed
  qed
qed

lemma unit_only:
  assumes "DisplayMessage_unit cfg eep (eep a) (a + 1) out = Some r" and "eep a \<noteq> 0"
  shows "\<exists>u. wf_unit u \<and> stored eep a (unit_bytes u) \<and>
             fst r = a + of_nat (length (unit_bytes u))"
proof -
  consider (anim) "eep a = 0x7E" | (direct) "eep a = 0xFF" | (special) "eep a = 0x5E"
    | (plain) "eep a \<noteq> 0x7E" "eep a \<noteq> 0xFF" "eep a \<noteq> 0x5E"
    by blast
  then show ?thesis
  proof cases
    case anim
    with assms(1) have "fst r = a + 2"
      by (auto simp: DisplayMessage_unit_def Let_def split: if_splits option.splits)
    with anim have "wf_unit (Anim (eep (a + 1))) \<and> stored eep a (unit_bytes (Anim (eep (a + 1)))) \<and>
        fst r = a + of_nat (length (unit_bytes (Anim (eep (a + 1)))))"
      by simp
    then show ?thesis by blast
  next
    case direct
    with assms(1) have d: "DisplayMessage_direct eep (eep (a + 1)) (a + 1 + 1) out = Some r"
      by (simp add: DisplayMessage_unit_def)
    from direct_only[OF d] obtain bs where bs: "0xFF \<notin> set bs" "stored eep (a + 1) (bs @ [0xFF])"
      "fst r = a + 1 + of_nat (length bs) + 1"
      by blast
    with direct have "wf_unit (Raw bs) \<and> stored eep a (unit_bytes (Raw bs)) \<and>
        fst r = a + of_nat (length (unit_bytes (Raw bs)))"
      by simp
    then show ?thesis by blast
  next
    case special
    with assms(1) have "fst r = a + 2"
      by (auto simp: DisplayMessage_unit_def Let_def)
    with special have "wf_unit (Shifted (eep (a + 1))) \<and>
        stored eep a (unit_bytes (Shifted (eep (a + 1)))) \<and>
        fst r = a + of_nat (length (unit_bytes (Shifted (eep (a + 1)))))"
      by simp
    then show ?thesis by blast
  next
    case plain
    with assms(1) have "fst r = a + 1"
      by (auto simp: DisplayMessage_unit_def)
    with plain assms(2) have "wf_unit (Glyph (eep a)) \<and> stored eep a (unit_bytes (Glyph (eep a))) \<and>
        fst r = a + of_nat (length (unit_bytes (Glyph (eep a))))"
      by simp
    then show ?thesis by blast
  qed
qed


lemma loop_only:
  assumes "DisplayMessage_loop cfg eep ch ee out = Some y"
  shows "\<forall>a. eep a = ch \<and> ee = a + 1 \<longrightarrow>
           (\<exists>us. (\<forall>u\<in>set us. wf_unit u) \<and> stored eep a (concat (map unit_bytes us) @ [0]))"
proof (rule DisplayMessage_loop.raw_induct[where P = "\<lambda>cfg eep ch ee out y.
          \<forall>a. eep a = ch \<and> ee = a + 1 \<longrightarrow>
              (\<exists>us. (\<forall>u\<in>set us. wf_unit u) \<and>
                    stored eep a (concat (map unit_bytes us) @ [0]))", OF _ assms])
  fix loop :: "config \<Rightarrow> eeprom \<Rightarrow> u8 \<Rightarrow> addr \<Rightarrow> dm_call list \<Rightarrow> (addr \<times> dm_call list) option"
  fix cfg eep ch ee out y
  assume ih: "\<And>cfg eep ch ee out y. loop cfg eep ch ee out = Some y \<Longrightarrow>
          \<forall>a. eep a = ch \<and> ee = a + 1 \<longrightarrow>
              (\<exists>us. (\<forall>u\<in>set us. wf_unit u) \<and>
                    stored eep a (concat (map unit_bytes us) @ [0]))"
    and eq: "(if ch \<noteq> 0 then
               Option.bind (DisplayMessage_unit cfg eep ch ee out)
                 (\<lambda>r. let ch1 = eep (fst r); ee2 = fst r + 1;
                          out2 = (if ch1 \<noteq> 0 then snd r @ [dmPrintByte 0] else snd r)
                      in loop cfg eep ch1 ee2 out2)
             else Some (ee, out)) = Some y"
  show "\<forall>a. eep a = ch \<and> ee = a + 1 \<longrightarrow>
              (\<exists>us. (\<forall>u\<in>set us. wf_unit u) \<and>
                    stored eep a (concat (map unit_bytes us) @ [0]))"
  proof (intro allI impI)
    fix a
    assume a: "eep a = ch \<and> ee = a + 1"
    show "\<exists>us. (\<forall>u\<in>set us. wf_unit u) \<and> stored eep a (concat (map unit_bytes us) @ [0])"
    proof (cases "ch = 0")
      case True
      with a have "(\<forall>u\<in>set []. wf_unit u) \<and> stored eep a (concat (map unit_bytes []) @ [0])"
        by simp
      then show ?thesis by blast
    next
      case False
      with eq obtain r where r: "DisplayMessage_unit cfg eep ch ee out = Some r"
        and l: "loop cfg eep (eep (fst r)) (fst r + 1)
                  (if eep (fst r) \<noteq> 0 then snd r @ [dmPrintByte 0] else snd r) = Some y"
        by (auto simp: Let_def split: Option.bind_splits)
      from r a False unit_only[of cfg eep a out r]
      obtain u where u: "wf_unit u" "stored eep a (unit_bytes u)"
        "fst r = a + of_nat (length (unit_bytes u))"
        by auto
      from ih[OF l] obtain us where us: "\<forall>v\<in>set us. wf_unit v"
        "stored eep (fst r) (concat (map unit_bytes us) @ [0])"
        by blast
      from u us have "(\<forall>v\<in>set (u # us). wf_unit v) \<and>
          stored eep a (concat (map unit_bytes (u # us)) @ [0])"
        by (simp add: stored_append)
      then show ?thesis by blast
    qed
  qed
qed

lemma DisplayMessage_only_messages:
  assumes "DisplayMessage cfg eep c st = Some y"
  shows "\<exists>us. (\<forall>u\<in>set us. wf_unit u) \<and> stored eep c (message_bytes (eep c) us)"
proof -
  from assms obtain out1 z where
    "DisplayMessage_loop cfg eep (eep (c + 1)) (c + 1 + 1) out1 = Some z"
    by (auto simp: DisplayMessage_def Let_def split: option.splits)
  from loop_only[OF this] obtain us where "\<forall>u\<in>set us. wf_unit u"
    "stored eep (c + 1) (concat (map unit_bytes us) @ [0])"
    by blast
  then have "(\<forall>u\<in>set us. wf_unit u) \<and> stored eep c (message_bytes (eep c) us)"
    by (simp add: message_bytes_def)
  then show ?thesis by blast
qed

subsection \<open>Values of the sample inputs\<close>

lemma sample_pins: "pressed sample_config 0" "\<not> pressed sample_config 1"
  by (simp_all add: pressed_def sample_config_def)

lemma sample_pb:
  "PB_PRESS sample_config = 1" "PB_ACK sample_config = 0x80" "PB_RELEASE sample_config = 0"
  "PB_LONGPRESS sample_config = 3" "PB_LONGPRESS_DELAY sample_config = 2"
  by (simp_all add: sample_config_def)

lemma sample_tables: "tables_ok sample_config"
  by (simp add: tables_ok_def sample_config_def)

lemma sample_messages: "messages sample_config = 0"
  by (simp add: sample_config_def)

lemma sample_mode_calls: "mode_calls sample_config 5 = [dmSetScrolling 1 0 0, dmClearDisplay]"
  by (simp add: mode_calls_def sample_config_def)

lemma initial_calls: "calls (initial_state cfg) = []"
  by (simp add: initial_state_def)

text \<open>
  C2. Let the EEPROM hold at the cursor \<open>c\<close> a message: a mode byte, the bytes of a sequence
  of units, and the terminating zero at address \<open>t\<close>. Then \<open>DisplayMessage\<close> returns, and its
  result is \<open>t + 1\<close>, the address after the terminator, if the byte there is not zero, and
  the address of the first message otherwise. For the store \<open>[5, 'A', 0, 0]\<close> playing the
  first message returns the address of the first message again.
\<close>

theorem DisplayMessage_next_or_wrap:
  assumes "tables_ok cfg"
      and "\<forall>u\<in>set us. wf_unit u"
      and "stored eep c (message_bytes mode us)"
      and "t = c + 1 + of_nat (length (concat (map unit_bytes us)))"
  shows "eep t = 0 \<and>
         (\<exists>st'. DisplayMessage cfg eep c st =
                  Some (if eep (t + 1) \<noteq> 0 then t + 1 else messages cfg, st'))"
proof -
  from assms(3) have "stored eep (c + 1 + of_nat (length (concat (map unit_bytes us)))) [0]"
    by (simp add: message_bytes_def stored_append)
  then have z: "eep t = 0"
    by (simp add: assms(4))
  have e: "c + of_nat (length (message_bytes mode us)) = t + 1"
    by (simp add: message_bytes_def assms(4))
  from DisplayMessage_run[OF assms(1-3), of st] z show ?thesis
    unfolding e by blast
qed

theorem DisplayMessage_next_or_wrap_witness:
  "tables_ok sample_config \<and> wf_unit (Glyph 0x41) \<and>
   message_bytes 5 [Glyph 0x41] = [5, 0x41, 0] \<and>
   stored (eeprom_image [5, 0x41, 0, 0]) (messages sample_config) [5, 0x41, 0] \<and>
   eeprom_image [5, 0x41, 0, 0] (messages sample_config + 3) = 0 \<and>
   map_option fst (DisplayMessage sample_config (eeprom_image [5, 0x41, 0, 0])
      (messages sample_config) (initial_state sample_config)) = Some (messages sample_config)"
proof -
  let ?eep = "eeprom_image [5, 0x41, 0, 0]"
  have m: "messages sample_config = 0"
    by (simp add: sample_config_def)
  have b: "message_bytes 5 [Glyph 0x41] = [5, 0x41, 0]"
    by (simp add: message_bytes_def)
  have h: "\<forall>u\<in>set [Glyph 0x41]. wf_unit u"
    "stored ?eep (messages sample_config) (message_bytes 5 [Glyph 0x41])"
    "(2::addr) = messages sample_config + 1 + of_nat (length (concat (map unit_bytes [Glyph 0x41])))"
    by (simp_all add: b m eeprom_image_def)
  have n: "?eep (2 + 1) = 0"
    by (simp add: eeprom_image_def)
  from DisplayMessage_next_or_wrap[OF sample_tables h, of "initial_state sample_config"] n
  have "map_option fst (DisplayMessage sample_config ?eep (messages sample_config)
          (initial_state sample_config)) = Some (messages sample_config)"
    by auto
  with sample_tables h(2) b n m show ?thesis
    by simp
qed

text \<open>
  C4. In a message, the two bytes \<open>'^'\<close> and \<open>X\<close> with \<open>X\<close> other than \<open>'^'\<close> make
  \<open>DisplayMessage\<close> draw exactly one character, of code \<open>X + 63\<close> (addition of bytes), and
  the two bytes \<open>'^' '^'\<close> make it draw exactly one character \<open>'^'\<close>; the units before and
  after are drawn as they are without the escape.
\<close>

theorem caret_escape_draws_one_char:
  assumes "tables_ok cfg"
      and "\<forall>u\<in>set (us1 @ us2). wf_unit u"
      and "stored eep c (message_bytes mode (us1 @ Shifted x # us2))"
  shows "\<exists>p st'. DisplayMessage cfg eep c st = Some (p, st') \<and>
           calls st' = calls st @ mode_calls cfg mode @
             spaced (map (unit_draws cfg) us1 @
                     [dmPrintChar (if x = 0x5E then 0x5E else x + 63)] #
                     map (unit_draws cfg) us2)"
proof -
  from assms(2) have "\<forall>u\<in>set (us1 @ Shifted x # us2). wf_unit u"
    by simp
  from DisplayMessage_run[OF assms(1) this assms(3), of st] show ?thesis
    by simp
qed

theorem caret_escape_draws_one_char_witness:
  "tables_ok sample_config \<and>
   stored (eeprom_image [5, 0x5E, 0x41, 0x5E, 0x5E, 0, 0]) 0
     (message_bytes 5 ([] @ Shifted 0x41 # [Shifted 0x5E])) \<and>
   map_option (calls \<circ> snd)
     (DisplayMessage sample_config (eeprom_image [5, 0x5E, 0x41, 0x5E, 0x5E, 0, 0]) 0
        (initial_state sample_config)) =
     Some [dmSetScrolling 1 0 0, dmClearDisplay, dmPrintChar 128, dmPrintByte 0, dmPrintChar 0x5E]"
proof -
  let ?eep = "eeprom_image [5, 0x5E, 0x41, 0x5E, 0x5E, 0, 0]"
  have h: "\<forall>u\<in>set ([] @ [Shifted 0x5E]). wf_unit u"
    "stored ?eep 0 (message_bytes 5 ([] @ Shifted 0x41 # [Shifted 0x5E]))"
    by (simp_all add: message_bytes_def eeprom_image_def)
  from caret_escape_draws_one_char[OF sample_tables h, of "initial_state sample_config"]
  obtain p st' where
    "DisplayMessage sample_config ?eep 0 (initial_state sample_config) = Some (p, st')"
    "calls st' = [dmSetScrolling 1 0 0, dmClearDisplay, dmPrintChar 128, dmPrintByte 0,
                  dmPrintChar 0x5E]"
    by (auto simp: sample_mode_calls initial_calls)
  with sample_tables h(2) show ?thesis
    by simp
qed

text \<open>
  C5. In a message, \<open>'~'\<close> followed by a byte \<open>X\<close> draws the animation of index \<open>X - 'A'\<close>
  when \<open>X\<close> is not \<open>'~'\<close> and that index is below \<open>ANIMATION_COUNT\<close> (for a letter from
  \<open>'A'\<close> on the index is the distance from \<open>'A'\<close>); it draws nothing when the index is outside
  the table and nothing when \<open>X\<close> is \<open>'~'\<close>. In each case the units that follow are decoded
  and \<open>DisplayMessage\<close> returns from the terminator \<open>t\<close> of the message.
\<close>

theorem tilde_escape_never_stops:
  assumes "tables_ok cfg"
      and "\<forall>u\<in>set (us1 @ us2). wf_unit u"
      and "stored eep c (message_bytes mode (us1 @ Anim x # us2))"
      and "t = c + 1 + of_nat (length (concat (map unit_bytes (us1 @ Anim x # us2))))"
  shows "eep t = 0 \<and>
         (\<exists>st'. DisplayMessage cfg eep c st =
                  Some (if eep (t + 1) \<noteq> 0 then t + 1 else messages cfg, st') \<and>
                calls st' = calls st @ mode_calls cfg mode @
                  spaced (map (unit_draws cfg) us1 @
                          (if x = 0x7E \<or> ANIMATION_COUNT cfg \<le> unat (x - 0x41) then []
                           else [dmDisplayImage (animation cfg ! unat (x - 0x41))]) #
                          map (unit_draws cfg) us2)) \<and>
         (0x41 \<le> x \<longrightarrow> unat (x - 0x41) = unat x - 65)"
proof -
  let ?us = "us1 @ Anim x # us2"
  from assms(2) have wf: "\<forall>u\<in>set ?us. wf_unit u"
    by simp
  have z: "eep t = 0"
    unfolding assms(4) by (rule stored_terminator[OF assms(3)])
  have e: "c + of_nat (length (message_bytes mode ?us)) = t + 1"
    unfolding assms(4) by (rule message_end)
  have "0x41 \<le> x \<Longrightarrow> unat (x - 0x41) = unat x - 65"
    by (simp add: unat_sub)
  with DisplayMessage_run[OF assms(1) wf assms(3), of st, unfolded e] z show ?thesis
    by simp
qed

theorem tilde_escape_never_stops_witness:
  "tables_ok sample_config \<and>
   stored (eeprom_image [5, 0x7E, 0x41, 0x7E, 0x5A, 0x7E, 0x7E, 0x42, 0, 0]) 0
     (message_bytes 5 ([Anim 0x41] @ Anim 0x5A # [Anim 0x7E, Glyph 0x42])) \<and>
   eeprom_image [5, 0x7E, 0x41, 0x7E, 0x5A, 0x7E, 0x7E, 0x42, 0, 0] 8 = 0 \<and>
   unat (0x5A - 0x41 :: u8) = 25 \<and>
   map_option fst
     (DisplayMessage sample_config
        (eeprom_image [5, 0x7E, 0x41, 0x7E, 0x5A, 0x7E, 0x7E, 0x42, 0, 0]) 0
        (initial_state sample_config)) = Some (messages sample_config) \<and>
   map_option (calls \<circ> snd)
     (DisplayMessage sample_config
        (eeprom_image [5, 0x7E, 0x41, 0x7E, 0x5A, 0x7E, 0x7E, 0x42, 0, 0]) 0
        (initial_state sample_config)) =
     Some [dmSetScrolling 1 0 0, dmClearDisplay, dmDisplayImage 0x0100,
           dmPrintByte 0, dmPrintByte 0, dmPrintByte 0, dmPrintChar 0x42]"
proof -
  let ?eep = "eeprom_image [5, 0x7E, 0x41, 0x7E, 0x5A, 0x7E, 0x7E, 0x42, 0, 0]"
  have h: "\<forall>u\<in>set ([Anim 0x41] @ [Anim 0x7E, Glyph 0x42]). wf_unit u"
    "stored ?eep 0 (message_bytes 5 ([Anim 0x41] @ Anim 0x5A # [Anim 0x7E, Glyph 0x42]))"
    "(8::addr) = 0 + 1 + of_nat (length (concat (map unit_bytes
        ([Anim 0x41] @ Anim 0x5A # [Anim 0x7E, Glyph 0x42]))))"
    by (simp_all add: message_bytes_def eeprom_image_def)
  have n: "?eep 9 = 0"
    by (simp add: eeprom_image_def)
  have a: "ANIMATION_COUNT sample_config = 2" "animation sample_config = [0x0100, 0x0200]"
    by (simp_all add: sample_config_def)
  from tilde_escape_never_stops[OF sample_tables h, of "initial_state sample_config"]
  obtain st' where "?eep 8 = 0" "unat (0x5A - 0x41 :: u8) = 25"
    "DisplayMessage sample_config ?eep 0 (initial_state sample_config) =
       Some (messages sample_config, st')"
    "calls st' = [dmSetScrolling 1 0 0, dmClearDisplay, dmDisplayImage 0x0100,
                  dmPrintByte 0, dmPrintByte 0, dmPrintByte 0, dmPrintChar 0x42]"
    by (auto simp: sample_mode_calls initial_calls n a)
  with sample_tables h(2) show ?thesis
    by simp
qed

text \<open>
  C6. In a message, the byte \<open>0xFF\<close> opens direct mode: each of the bytes up to the next
  \<open>0xFF\<close> is written as one raw column by \<open>dmPrintByte\<close>, whatever its value, also when it
  is \<open>'~'\<close>, \<open>'^'\<close> or zero, and the closing \<open>0xFF\<close> returns to the decoding of units.
\<close>

theorem direct_mode_raw_columns:
  assumes "tables_ok cfg"
      and "\<forall>u\<in>set (us1 @ us2). wf_unit u"
      and "0xFF \<notin> set bs"
      and "stored eep c (message_bytes mode (us1 @ Raw bs # us2))"
  shows "\<exists>p st'. DisplayMessage cfg eep c st = Some (p, st') \<and>
           calls st' = calls st @ mode_calls cfg mode @
             spaced (map (unit_draws cfg) us1 @ map dmPrintByte bs # map (unit_draws cfg) us2)"
proof -
  from assms(2,3) have "\<forall>u\<in>set (us1 @ Raw bs # us2). wf_unit u"
    by simp
  from DisplayMessage_run[OF assms(1) this assms(4), of st] show ?thesis
    by simp
qed

theorem direct_mode_raw_columns_witness:
  "tables_ok sample_config \<and>
   stored (eeprom_image [5, 0xFF, 0x7E, 0, 0x5E, 0xFF, 0x41, 0, 0]) 0
     (message_bytes 5 ([] @ Raw [0x7E, 0, 0x5E] # [Glyph 0x41])) \<and>
   map_option (calls \<circ> snd)
     (DisplayMessage sample_config (eeprom_image [5, 0xFF, 0x7E, 0, 0x5E, 0xFF, 0x41, 0, 0]) 0
        (initial_state sample_config)) =
     Some [dmSetScrolling 1 0 0, dmClearDisplay, dmPrintByte 0x7E, dmPrintByte 0,
           dmPrintByte 0x5E, dmPrintByte 0, dmPrintChar 0x41]"
proof -
  let ?eep = "eeprom_image [5, 0xFF, 0x7E, 0, 0x5E, 0xFF, 0x41, 0, 0]"
  have h: "\<forall>u\<in>set ([] @ [Glyph 0x41]). wf_unit u"
    "0xFF \<notin> set [0x7E, 0, 0x5E :: u8]"
    "stored ?eep 0 (message_bytes 5 ([] @ Raw [0x7E, 0, 0x5E] # [Glyph 0x41]))"
    by (simp_all add: message_bytes_def eeprom_image_def)
  from direct_mode_raw_columns[OF sample_tables h, of "initial_state sample_config"]
  obtain p st' where
    "DisplayMessage sample_config ?eep 0 (initial_state sample_config) = Some (p, st')"
    "calls st' = [dmSetScrolling 1 0 0, dmClearDisplay, dmPrintByte 0x7E, dmPrintByte 0,
                  dmPrintByte 0x5E, dmPrintByte 0, dmPrintChar 0x41]"
    by (auto simp: sample_mode_calls initial_calls)
  with sample_tables h(3) show ?thesis
    by simp
qed

text \<open>
  C7. \<open>DisplayMessage\<close> draws the units of a message in order and prints exactly one narrow
  space, \<open>dmPrintByte 0\<close>, after each unit but the last. For a message of \<open>n\<close> plain
  characters the draws are the \<open>n\<close> characters in order with \<open>n - 1\<close> narrow spaces, one
  between each two and none at the end.
\<close>

theorem narrow_space_between_units:
  assumes "tables_ok cfg"
      and "\<forall>u\<in>set us. wf_unit u"
      and "stored eep c (message_bytes mode us)"
  shows "\<exists>p st'. DisplayMessage cfg eep c st = Some (p, st') \<and>
           calls st' = calls st @ mode_calls cfg mode @ spaced (map (unit_draws cfg) us) \<and>
           length (spaced (map (unit_draws cfg) us)) =
             length (concat (map (unit_draws cfg) us)) + (length us - 1) \<and>
           (\<forall>bs. us = map Glyph bs \<longrightarrow>
              spaced (map (unit_draws cfg) us) = plain_draws bs \<and>
              [d \<leftarrow> plain_draws bs. d \<noteq> dmPrintByte 0] = map dmPrintChar bs \<and>
              count_list (plain_draws bs) (dmPrintByte 0) = length bs - 1)"
  using DisplayMessage_run[OF assms, of st] spaced_length[of "map (unit_draws cfg) us"]
  by (simp add: spaced_plain plain_draws_chars plain_draws_spaces)

theorem narrow_space_between_units_witness:
  "tables_ok sample_config \<and>
   stored (eeprom_image [5, 0x48, 0x49, 0x21, 0, 0]) 0
     (message_bytes 5 (map Glyph [0x48, 0x49, 0x21])) \<and>
   map_option (calls \<circ> snd)
     (DisplayMessage sample_config (eeprom_image [5, 0x48, 0x49, 0x21, 0, 0]) 0
        (initial_state sample_config)) =
     Some [dmSetScrolling 1 0 0, dmClearDisplay, dmPrintChar 0x48, dmPrintByte 0,
           dmPrintChar 0x49, dmPrintByte 0, dmPrintChar 0x21] \<and>
   count_list (plain_draws [0x48, 0x49, 0x21]) (dmPrintByte 0) = 2"
proof -
  let ?eep = "eeprom_image [5, 0x48, 0x49, 0x21, 0, 0]"
  have h: "\<forall>u\<in>set (map Glyph [0x48, 0x49, 0x21]). wf_unit u"
    "stored ?eep 0 (message_bytes 5 (map Glyph [0x48, 0x49, 0x21]))"
    by (simp_all add: message_bytes_def eeprom_image_def)
  from narrow_space_between_units[OF sample_tables h, of "initial_state sample_config"]
  obtain p st' where
    "DisplayMessage sample_config ?eep 0 (initial_state sample_config) = Some (p, st')"
    "calls st' = [dmSetScrolling 1 0 0, dmClearDisplay, dmPrintChar 0x48, dmPrintByte 0,
                  dmPrintChar 0x49, dmPrintByte 0, dmPrintChar 0x21]"
    "count_list (plain_draws [0x48, 0x49, 0x21]) (dmPrintByte 0) = 2"
    by (auto simp: sample_mode_calls initial_calls)
  with sample_tables h(2) show ?thesis
    by simp
qed

text \<open>
  C9, as the code has it. When the first message of the store is well formed, \<open>GoToSleep\<close>
  returns after the wake-up having played the first message, and the playback cursor
  \<open>msg_ptr\<close> is what \<open>DisplayMessage\<close> returned for it: the address after the terminator of
  the first message if the byte there is not zero, the address of the first message
  otherwise. The value does not depend on the cursor before sleeping. The same holds for
  the pass of the main loop that handles a long press.
\<close>

theorem GoToSleep_plays_first_message:
  assumes "tables_ok cfg"
      and "\<forall>u\<in>set us. wf_unit u"
      and "stored eep (messages cfg) (message_bytes mode us)"
      and "t = messages cfg + 1 + of_nat (length (concat (map unit_bytes us)))"
  shows "map_option msg_ptr (GoToSleep cfg eep (st\<lparr>msg_ptr := p\<rparr>)) =
           Some (if eep (t + 1) \<noteq> 0 then t + 1 else messages cfg) \<and>
         map_option calls (GoToSleep cfg eep st) =
           Some (calls st @ [dmClearDisplay, dmPrintChar 131] @ mode_calls cfg mode @
                 spaced (map (unit_draws cfg) us)) \<and>
         (button st = PB_LONGPRESS cfg \<and> PB_LONGPRESS cfg \<noteq> PB_RELEASE cfg \<longrightarrow>
            map_option msg_ptr (main_loop_body cfg eep st) =
              Some (if eep (t + 1) \<noteq> 0 then t + 1 else messages cfg))"
proof -
  have e: "messages cfg + of_nat (length (message_bytes mode us)) = t + 1"
    unfolding assms(4) by (rule message_end)
  note g = GoToSleep_run[OF assms(1-3), unfolded e]
  have "map_option msg_ptr (main_loop_body cfg eep st) =
          Some (if eep (t + 1) \<noteq> 0 then t + 1 else messages cfg)"
    if "button st = PB_LONGPRESS cfg" "PB_LONGPRESS cfg \<noteq> PB_RELEASE cfg"
    using that by (simp add: main_loop_body_def g Let_def)
  then show ?thesis
    by (simp add: g)
qed

theorem GoToSleep_plays_first_message_witness:
  "tables_ok sample_config \<and>
   stored (eeprom_image [5, 0x41, 0, 0x0D, 0x42, 0, 0]) (messages sample_config)
     (message_bytes 5 [Glyph 0x41]) \<and>
   map_option msg_ptr
     (GoToSleep sample_config (eeprom_image [5, 0x41, 0, 0x0D, 0x42, 0, 0])
        ((initial_state sample_config)\<lparr>button := 3, msg_ptr := 0x0123\<rparr>)) = Some 3 \<and>
   map_option calls
     (GoToSleep sample_config (eeprom_image [5, 0x41, 0, 0x0D, 0x42, 0, 0])
        ((initial_state sample_config)\<lparr>button := 3\<rparr>)) =
     Some [dmClearDisplay, dmPrintChar 131, dmSetScrolling 1 0 0, dmClearDisplay,
           dmPrintChar 0x41] \<and>
   button ((initial_state sample_config)\<lparr>button := 3\<rparr>) = PB_LONGPRESS sample_config \<and>
   PB_LONGPRESS sample_config \<noteq> PB_RELEASE sample_config \<and>
   map_option msg_ptr
     (main_loop_body sample_config (eeprom_image [5, 0x41, 0, 0x0D, 0x42, 0, 0])
        ((initial_state sample_config)\<lparr>button := 3\<rparr>)) = Some 3"
proof -
  let ?eep = "eeprom_image [5, 0x41, 0, 0x0D, 0x42, 0, 0]"
  let ?st = "(initial_state sample_config)\<lparr>button := 3\<rparr>"
  have h: "\<forall>u\<in>set [Glyph 0x41]. wf_unit u"
    "stored ?eep (messages sample_config) (message_bytes 5 [Glyph 0x41])"
    "(2::addr) = messages sample_config + 1 +
       of_nat (length (concat (map unit_bytes [Glyph 0x41])))"
    by (simp_all add: message_bytes_def eeprom_image_def sample_messages)
  have n: "?eep 3 = 0x0D"
    by (simp add: eeprom_image_def)
  have b: "button ?st = PB_LONGPRESS sample_config"
    "PB_LONGPRESS sample_config \<noteq> PB_RELEASE sample_config"
    "calls ?st = []"
    by (simp_all add: sample_pb initial_state_def)
  from GoToSleep_plays_first_message[OF sample_tables h, where p = "0x0123" and st = ?st]
    sample_tables h(2) b
  show ?thesis
    by (simp add: n sample_mode_calls)
qed

text \<open>
  C9, as the claim states it, has the cursor equal to the first message after the wake-up.
  With two messages in the store, the cursor after \<open>GoToSleep\<close> is the address of the
  second message.
\<close>

theorem wake_cursor_counterexample:
  "map_option msg_ptr
     (GoToSleep sample_config (eeprom_image [5, 0x41, 0, 5, 0x42, 0, 0])
        (initial_state sample_config)) = Some 3 \<and>
   messages sample_config = 0 \<and> (3::addr) \<noteq> 0"
proof -
  let ?eep = "eeprom_image [5, 0x41, 0, 5, 0x42, 0, 0]"
  have h: "\<forall>u\<in>set [Glyph 0x41]. wf_unit u"
    "stored ?eep (messages sample_config) (message_bytes 5 [Glyph 0x41])"
    by (simp_all add: message_bytes_def eeprom_image_def sample_messages)
  have l: "messages sample_config + of_nat (length (message_bytes 5 [Glyph 0x41])) = 3"
    by (simp add: message_bytes_def sample_messages)
  have n: "?eep 3 = 5"
    by (simp add: eeprom_image_def)
  show ?thesis
    unfolding GoToSleep_run[OF sample_tables h] l n
    by (simp add: sample_messages)
qed

section \<open>Properties of the system timer interrupt\<close>

lemma ISR_scroll_part:
  "scroll_speed (ISR_TIMER0_COMPB cfg pin st) = scroll_speed st \<and>
   scroll_timer (ISR_TIMER0_COMPB cfg pin st) =
     (if scroll_timer st \<noteq> 0 then scroll_timer st - 1 else scroll_speed st) \<and>
   calls (ISR_TIMER0_COMPB cfg pin st) =
     (if scroll_timer st \<noteq> 0 then calls st else calls st @ [dmScroll])"
  by (simp add: ISR_TIMER0_COMPB_def Let_def)

lemma period_step:
  "(Suc j mod (s + 1) = 0) = (s \<le> j \<and> (j - s) mod (s + 1) = 0)"
proof (cases "s \<le> j")
  case True
  then have "Suc j = (j - s) + (s + 1)" by simp
  then have "Suc j mod (s + 1) = (j - s) mod (s + 1)"
    by (metis mod_add_self2)
  with True show ?thesis by simp
next
  case False
  then have "Suc j < s + 1 \<or> Suc j = s + 1" by arith
  then show ?thesis
    using False by auto
qed

lemma scroll_steps_nth:
  "i < length pins \<Longrightarrow>
   scroll_steps cfg pins st ! i =
     (unat (scroll_timer st) \<le> i \<and>
      (i - unat (scroll_timer st)) mod (unat (scroll_speed st) + 1) = 0)"
proof (induction pins arbitrary: st i)
  case Nil
  then show ?case by simp
next
  case (Cons pin pins)
  let ?st' = "ISR_TIMER0_COMPB cfg pin st"
  note p = ISR_scroll_part[of cfg pin st]
  show ?case
  proof (cases i)
    case 0
    then show ?thesis
      using p by (simp add: Let_def unat_eq_0)
  next
    case (Suc j)
    with Cons.prems have j: "j < length pins" by simp
    show ?thesis
    proof (cases "scroll_timer st = 0")
      case True
      then show ?thesis
        using Cons.IH[OF j, of ?st'] p Suc period_step[of j "unat (scroll_speed st)"]
        by (simp add: Let_def)
    next
      case False
      then have "unat (scroll_timer st) \<noteq> 0"
        by (simp add: unat_eq_0)
      moreover from False have "unat (scroll_timer st - 1) = unat (scroll_timer st) - 1"
        by (simp add: unat_minus_one)
      ultimately show ?thesis
        using Cons.IH[OF j, of ?st'] p Suc False
        by (auto simp: Let_def)
    qed
  qed
qed

lemma ticks_append: "ticks cfg (ps @ qs) st = ticks cfg qs (ticks cfg ps st)"
  by (induction ps arbitrary: st) simp_all

lemma issued_append:
  "issued cfg ev (ps @ qs) st = issued cfg ev ps st + issued cfg ev qs (ticks cfg ps st)"
  by (induction ps arbitrary: st) (simp_all add: Let_def)

lemma ISR_button_part:
  "button (ISR_TIMER0_COMPB cfg pin st) =
     (if \<not> pressed cfg pin then
        (if button st AND PB_PRESS cfg \<noteq> 0
         then button st AND NOT (PB_PRESS cfg OR PB_ACK cfg) else button st)
      else if button st AND PB_PRESS cfg = 0 then PB_PRESS cfg
      else if button st = PB_PRESS cfg \<and> pb_timer st = 0 then PB_LONGPRESS cfg
      else button st) \<and>
   pb_timer (ISR_TIMER0_COMPB cfg pin st) =
     (if \<not> pressed cfg pin then pb_timer st
      else if button st AND PB_PRESS cfg = 0 then PB_LONGPRESS_DELAY cfg
      else if button st = PB_PRESS cfg \<and> pb_timer st \<noteq> 0 then pb_timer st - 1
      else pb_timer st)"
  by (simp add: ISR_TIMER0_COMPB_def Let_def pressed_def)

lemma idle_stays:
  assumes "\<forall>q\<in>set qs. \<not> pressed cfg q" and "button st AND PB_PRESS cfg = 0"
  shows "button (ticks cfg qs st) = button st \<and> issued cfg ev qs st = 0"
  using assms
proof (induction qs arbitrary: st)
  case Nil
  then show ?case by simp
next
  case (Cons q qs)
  then have "button (ISR_TIMER0_COMPB cfg q st) = button st"
    by (simp add: ISR_button_part)
  with Cons show ?case
    by (simp add: Let_def)
qed

lemma release_phase:
  assumes "\<forall>q\<in>set qs. \<not> pressed cfg q" and "qs \<noteq> []"
      and "button st AND PB_PRESS cfg \<noteq> 0"
  shows "button (ticks cfg qs st) = button st AND NOT (PB_PRESS cfg OR PB_ACK cfg) \<and>
         issued cfg ev qs st =
           (if button st AND NOT (PB_PRESS cfg OR PB_ACK cfg) = ev \<and> button st \<noteq> ev
            then 1 else 0)"
proof -
  from assms(2) obtain q qs' where qs: "qs = q # qs'"
    by (cases qs) auto
  let ?st' = "ISR_TIMER0_COMPB cfg q st"
  from assms(1,3) qs
  have b: "button ?st' = button st AND NOT (PB_PRESS cfg OR PB_ACK cfg)"
    by (simp add: ISR_button_part)
  have "(button st AND NOT (PB_PRESS cfg OR PB_ACK cfg)) AND PB_PRESS cfg = 0"
    by (rule bit_eqI) (auto simp: bit_simps)
  with b have "button ?st' AND PB_PRESS cfg = 0"
    by simp
  with idle_stays[of qs' cfg ?st' ev] assms(1) qs b show ?thesis
    by (simp add: Let_def)
qed

lemma pressed_phase:
  assumes "pb_consts_ok cfg" and "button st = PB_ACK cfg"
      and "\<forall>p\<in>set ps. pressed cfg p" and "ps \<noteq> []"
  shows "(length ps \<le> unat (PB_LONGPRESS_DELAY cfg) + 1 \<longrightarrow>
            button (ticks cfg ps st) = PB_PRESS cfg \<and>
            unat (pb_timer (ticks cfg ps st)) = unat (PB_LONGPRESS_DELAY cfg) + 1 - length ps \<and>
            issued cfg (PB_LONGPRESS cfg) ps st = 0 \<and>
            issued cfg (PB_RELEASE cfg) ps st = 0) \<and>
         (unat (PB_LONGPRESS_DELAY cfg) + 2 \<le> length ps \<longrightarrow>
            button (ticks cfg ps st) = PB_LONGPRESS cfg \<and>
            issued cfg (PB_LONGPRESS cfg) ps st = 1 \<and>
            issued cfg (PB_RELEASE cfg) ps st = 0)"
  using assms(4,3)
proof (induction ps rule: rev_nonempty_induct)
  case (single p)
  with assms(1,2) show ?case
    by (auto simp: ISR_button_part pb_consts_ok_def Let_def)
next
  case (snoc p ps)
  let ?s = "ticks cfg ps st"
  let ?D = "unat (PB_LONGPRESS_DELAY cfg)"
  from snoc.prems have pp: "pressed cfg p" and ps: "\<forall>p\<in>set ps. pressed cfg p"
    by simp_all
  note ih = snoc.IH[OF ps]
  from assms(1) have c: "PB_PRESS cfg \<noteq> 0" "PB_RELEASE cfg = 0"
    "PB_LONGPRESS cfg AND PB_PRESS cfg \<noteq> 0" "PB_LONGPRESS cfg \<noteq> PB_PRESS cfg"
    by (simp_all add: pb_consts_ok_def)
  from c(3) have c0: "PB_LONGPRESS cfg \<noteq> 0" by auto
  have step: "issued cfg ev (ps @ [p]) st =
      issued cfg ev ps st +
      (if button (ISR_TIMER0_COMPB cfg p ?s) = ev \<and> button ?s \<noteq> ev then 1 else 0)" for ev
    by (simp add: issued_append Let_def)
  consider (hold) "length ps \<le> ?D" | (fire) "length ps = ?D + 1" | (after) "?D + 2 \<le> length ps"
    by arith
  then show ?case
  proof cases
    case hold
    with ih have b: "button ?s = PB_PRESS cfg"
      and t: "unat (pb_timer ?s) = ?D + 1 - length ps"
      and i: "issued cfg (PB_LONGPRESS cfg) ps st = 0" "issued cfg (PB_RELEASE cfg) ps st = 0"
      by simp_all
    from t hold have nz: "pb_timer ?s \<noteq> 0"
      by (auto simp: unat_eq_0)
    then have "unat (pb_timer ?s - 1) = unat (pb_timer ?s) - 1"
      by (simp add: unat_minus_one)
    with b t i nz pp c hold show ?thesis
      by (simp add: ticks_append step ISR_button_part)
  next
    case fire
    with ih have b: "button ?s = PB_PRESS cfg"
      and t: "unat (pb_timer ?s) = 0"
      and i: "issued cfg (PB_LONGPRESS cfg) ps st = 0" "issued cfg (PB_RELEASE cfg) ps st = 0"
      by simp_all
    from t have "pb_timer ?s = 0"
      by (simp add: unat_eq_0)
    with b i pp c c0 fire show ?thesis
      by (simp add: ticks_append step ISR_button_part)
  next
    case after
    with ih have b: "button ?s = PB_LONGPRESS cfg"
      and i: "issued cfg (PB_LONGPRESS cfg) ps st = 1" "issued cfg (PB_RELEASE cfg) ps st = 0"
      by simp_all
    with pp c c0 after show ?thesis
      by (simp add: ticks_append step ISR_button_part)
  qed
qed

lemma ISR_record:
  "ISR_TIMER0_COMPB cfg pin
     \<lparr>scroll_speed = s, button = b, msg_ptr = m, scroll_timer = t, pb_timer = p, calls = c\<rparr> =
   \<lparr>scroll_speed = s,
    button =
      (if \<not> pressed cfg pin then
         (if b AND PB_PRESS cfg \<noteq> 0 then b AND NOT (PB_PRESS cfg OR PB_ACK cfg) else b)
       else if b AND PB_PRESS cfg = 0 then PB_PRESS cfg
       else if b = PB_PRESS cfg \<and> p = 0 then PB_LONGPRESS cfg
       else b),
    msg_ptr = m,
    scroll_timer = (if t \<noteq> 0 then t - 1 else s),
    pb_timer =
      (if \<not> pressed cfg pin then p
       else if b AND PB_PRESS cfg = 0 then PB_LONGPRESS_DELAY cfg
       else if b = PB_PRESS cfg \<and> p \<noteq> 0 then p - 1
       else p),
    calls = (if t \<noteq> 0 then c else c @ [dmScroll])\<rparr>"
  by (simp add: ISR_TIMER0_COMPB_def Let_def pressed_def)

text \<open>
  C1, as the code has it. Let the button constants be as \<open>pb_consts_ok\<close> requires and let
  the interrupt run on N \<ge> 1 pressed samples followed by M \<ge> 1 samples that are not pressed,
  from a state whose button event is the acknowledged idle value \<open>PB_ACK\<close>. The first
  pressed sample loads the timer with \<open>PB_LONGPRESS_DELAY\<close> and every further one either
  counts it down or, finding it zero, issues the long press. Hence: if N is at least
  \<open>PB_LONGPRESS_DELAY + 2\<close>, the event becomes \<open>PB_LONGPRESS\<close>, issued exactly once, no
  release is issued, and the samples that are not pressed leave \<open>PB_LONGPRESS\<close> without its
  press and acknowledge bits; if N is at most \<open>PB_LONGPRESS_DELAY + 1\<close>, the event stays
  \<open>PB_PRESS\<close> while pressed and ends as \<open>PB_RELEASE\<close>, issued exactly once, and no long
  press is issued.
\<close>

theorem button_press_classified:
  assumes "pb_consts_ok cfg" and "button st = PB_ACK cfg"
      and "\<forall>p\<in>set ps. pressed cfg p" and "\<forall>q\<in>set qs. \<not> pressed cfg q"
      and "ps \<noteq> []" and "qs \<noteq> []"
  shows "(unat (PB_LONGPRESS_DELAY cfg) + 2 \<le> length ps \<longrightarrow>
            button (ticks cfg ps st) = PB_LONGPRESS cfg \<and>
            button (ticks cfg (ps @ qs) st) =
              PB_LONGPRESS cfg AND NOT (PB_PRESS cfg OR PB_ACK cfg) \<and>
            issued cfg (PB_LONGPRESS cfg) (ps @ qs) st = 1 \<and>
            issued cfg (PB_RELEASE cfg) (ps @ qs) st = 0) \<and>
         (length ps \<le> unat (PB_LONGPRESS_DELAY cfg) + 1 \<longrightarrow>
            button (ticks cfg ps st) = PB_PRESS cfg \<and>
            button (ticks cfg (ps @ qs) st) = PB_RELEASE cfg \<and>
            issued cfg (PB_RELEASE cfg) (ps @ qs) st = 1 \<and>
            issued cfg (PB_LONGPRESS cfg) (ps @ qs) st = 0)"
proof -
  let ?s = "ticks cfg ps st"
  note pp = pressed_phase[OF assms(1,2,3,5)]
  from assms(1) have c: "PB_PRESS cfg \<noteq> 0" "PB_RELEASE cfg = 0"
    "PB_LONGPRESS cfg AND PB_PRESS cfg \<noteq> 0" "PB_LONGPRESS cfg \<noteq> PB_PRESS cfg"
    "PB_LONGPRESS cfg AND NOT (PB_PRESS cfg OR PB_ACK cfg) \<noteq> 0"
    by (simp_all add: pb_consts_ok_def)
  have z: "PB_PRESS cfg AND NOT (PB_PRESS cfg OR PB_ACK cfg) = 0"
    by (rule bit_eqI) (auto simp: bit_simps)
  have l: "PB_LONGPRESS cfg AND NOT (PB_PRESS cfg OR PB_ACK cfg) \<noteq> PB_LONGPRESS cfg"
  proof
    assume "PB_LONGPRESS cfg AND NOT (PB_PRESS cfg OR PB_ACK cfg) = PB_LONGPRESS cfg"
    then have "PB_LONGPRESS cfg AND PB_PRESS cfg =
               (PB_LONGPRESS cfg AND NOT (PB_PRESS cfg OR PB_ACK cfg)) AND PB_PRESS cfg"
      by simp
    also have "\<dots> = 0"
      by (rule bit_eqI) (auto simp: bit_simps)
    finally show False using c(3) by simp
  qed
  have long: "button ?s = PB_LONGPRESS cfg \<and>
              button (ticks cfg (ps @ qs) st) =
                PB_LONGPRESS cfg AND NOT (PB_PRESS cfg OR PB_ACK cfg) \<and>
              issued cfg (PB_LONGPRESS cfg) (ps @ qs) st = 1 \<and>
              issued cfg (PB_RELEASE cfg) (ps @ qs) st = 0"
    if n: "unat (PB_LONGPRESS_DELAY cfg) + 2 \<le> length ps"
  proof -
    from pp n have b: "button ?s = PB_LONGPRESS cfg"
      and i: "issued cfg (PB_LONGPRESS cfg) ps st = 1" "issued cfg (PB_RELEASE cfg) ps st = 0"
      by simp_all
    from b c(3) have "button ?s AND PB_PRESS cfg \<noteq> 0" by simp
    from release_phase[OF assms(4,6) this] b i c l show ?thesis
      by (simp add: issued_append ticks_append)
  qed
  have short: "button ?s = PB_PRESS cfg \<and>
               button (ticks cfg (ps @ qs) st) = PB_RELEASE cfg \<and>
               issued cfg (PB_RELEASE cfg) (ps @ qs) st = 1 \<and>
               issued cfg (PB_LONGPRESS cfg) (ps @ qs) st = 0"
    if n: "length ps \<le> unat (PB_LONGPRESS_DELAY cfg) + 1"
  proof -
    from pp n have b: "button ?s = PB_PRESS cfg"
      and i: "issued cfg (PB_LONGPRESS cfg) ps st = 0" "issued cfg (PB_RELEASE cfg) ps st = 0"
      by simp_all
    from b c(1) have "button ?s AND PB_PRESS cfg \<noteq> 0" by simp
    from release_phase[OF assms(4,6) this] b i c z show ?thesis
      by (auto simp: issued_append ticks_append)
  qed
  from long short show ?thesis by blast
qed

theorem button_press_classified_witness:
  "pb_consts_ok sample_config \<and>
   button (initial_state sample_config) = PB_ACK sample_config \<and>
   pressed sample_config 0 \<and> \<not> pressed sample_config 1 \<and>
   unat (PB_LONGPRESS_DELAY sample_config) + 2 \<le> length [0, 0, 0, 0 :: u8] \<and>
   button (ticks sample_config [0, 0, 0, 0] (initial_state sample_config)) =
     PB_LONGPRESS sample_config \<and>
   issued sample_config (PB_LONGPRESS sample_config) ([0, 0, 0, 0] @ [1])
     (initial_state sample_config) = 1 \<and>
   issued sample_config (PB_RELEASE sample_config) ([0, 0, 0, 0] @ [1])
     (initial_state sample_config) = 0 \<and>
   length [0, 0 :: u8] \<le> unat (PB_LONGPRESS_DELAY sample_config) + 1 \<and>
   button (ticks sample_config ([0, 0] @ [1, 1]) (initial_state sample_config)) =
     PB_RELEASE sample_config \<and>
   issued sample_config (PB_RELEASE sample_config) ([0, 0] @ [1, 1])
     (initial_state sample_config) = 1 \<and>
   issued sample_config (PB_LONGPRESS sample_config) ([0, 0] @ [1, 1])
     (initial_state sample_config) = 0"
proof -
  have h: "pb_consts_ok sample_config"
    "button (initial_state sample_config) = PB_ACK sample_config"
    by (simp_all add: pb_consts_ok_def sample_pb initial_state_def)
  have long: "\<forall>p\<in>set [0, 0, 0, 0]. pressed sample_config p"
    "\<forall>q\<in>set [1]. \<not> pressed sample_config q"
    "[0, 0, 0, 0 :: u8] \<noteq> []" "[1 :: u8] \<noteq> []"
    "unat (PB_LONGPRESS_DELAY sample_config) + 2 \<le> length [0, 0, 0, 0 :: u8]"
    by (simp_all add: sample_pb sample_pins)
  have short: "\<forall>p\<in>set [0, 0]. pressed sample_config p"
    "\<forall>q\<in>set [1, 1]. \<not> pressed sample_config q"
    "[0, 0 :: u8] \<noteq> []" "[1, 1 :: u8] \<noteq> []"
    "length [0, 0 :: u8] \<le> unat (PB_LONGPRESS_DELAY sample_config) + 1"
    by (simp_all add: sample_pb sample_pins)
  from button_press_classified[OF h long(1-4)] button_press_classified[OF h short(1-4)]
    h long(5) short(5) sample_pins
  show ?thesis
    by blast
qed

text \<open>
  C1, as the claim states it, puts the threshold at N greater than \<open>PB_LONGPRESS_DELAY\<close>.
  With a delay of 2, three pressed samples exceed the delay, yet the fourth sample, not
  pressed, issues a release and no long press was issued.
\<close>

theorem long_press_threshold_counterexample:
  "unat (PB_LONGPRESS_DELAY sample_config) < length [0, 0, 0 :: u8] \<and>
   pressed sample_config 0 \<and> \<not> pressed sample_config 1 \<and>
   issued sample_config (PB_LONGPRESS sample_config) [0, 0, 0, 1]
     (initial_state sample_config) = 0 \<and>
   issued sample_config (PB_RELEASE sample_config) [0, 0, 0, 1]
     (initial_state sample_config) = 1 \<and>
   button (ticks sample_config [0, 0, 0, 1] (initial_state sample_config)) =
     PB_RELEASE sample_config"
  by (simp add: initial_state_def ISR_record sample_pins sample_pb)

text \<open>
  C8. The interrupt leaves the scroll speed alone; it counts the scroll timer down by one
  while that is not zero and makes no backend call; finding it zero it reloads it with the
  scroll speed and calls \<open>dmScroll\<close> once. Over any sequence of invocations with the scroll
  speed \<open>s\<close> of the start state, invocation number \<open>i\<close> (counted from 0) scrolls exactly when
  \<open>i\<close> is the initial timer value plus a multiple of \<open>s + 1\<close>: consecutive scroll steps are
  \<open>s + 1\<close> invocations apart.
\<close>

theorem scroll_cadence:
  assumes "i < length pins"
  shows "scroll_speed (ISR_TIMER0_COMPB cfg pin st) = scroll_speed st \<and>
         scroll_timer (ISR_TIMER0_COMPB cfg pin st) =
           (if scroll_timer st \<noteq> 0 then scroll_timer st - 1 else scroll_speed st) \<and>
         calls (ISR_TIMER0_COMPB cfg pin st) =
           (if scroll_timer st \<noteq> 0 then calls st else calls st @ [dmScroll]) \<and>
         scroll_steps cfg pins st ! i =
           (unat (scroll_timer st) \<le> i \<and>
            (i - unat (scroll_timer st)) mod (unat (scroll_speed st) + 1) = 0)"
  using scroll_steps_nth[OF assms, of cfg st] ISR_scroll_part[of cfg pin st]
  by simp

theorem scroll_cadence_witness:
  "(5::nat) < length [1, 0, 1, 1, 0, 1, 0, 0 :: u8] \<and>
   scroll_steps sample_config [1, 0, 1, 1, 0, 1, 0, 0]
     ((initial_state sample_config)\<lparr>scroll_speed := 3\<rparr>) ! 5 = True \<and>
   scroll_steps sample_config [1, 0, 1, 1, 0, 1, 0, 0]
     ((initial_state sample_config)\<lparr>scroll_speed := 3\<rparr>) =
     [False, True, False, False, False, True, False, False]"
proof -
  have h: "(5::nat) < length [1, 0, 1, 1, 0, 1, 0, 0 :: u8]" by simp
  have e: "scroll_steps sample_config [1, 0, 1, 1, 0, 1, 0, 0]
     ((initial_state sample_config)\<lparr>scroll_speed := 3\<rparr>) =
     [False, True, False, False, False, True, False, False]"
    by (simp add: initial_state_def ISR_record sample_pins sample_pb)
  let ?st = "(initial_state sample_config)\<lparr>scroll_speed := 3\<rparr>"
  have r: "(unat (scroll_timer ?st) \<le> 5 \<and>
            (5 - unat (scroll_timer ?st)) mod (unat (scroll_speed ?st) + 1) = 0) = True"
    by (simp add: initial_state_def)
  have "scroll_steps sample_config [1, 0, 1, 1, 0, 1, 0, 0] ?st ! 5 = True"
    using scroll_cadence[OF h, of sample_config 0 ?st, THEN conjunct2, THEN conjunct2,
      THEN conjunct2]
    unfolding r .
  with h e show ?thesis by blast
qed

end
